theory Spec2Isabelle
  imports Main "HOL-Library.Char_ord" "HOL-Library.List_Lexorder"
begin

section \<open>Values exchanged with the API\<close>

text \<open>
  Payloads and responses are JSON-like dictionaries. A dictionary is an association list
  read with \<open>map_of\<close>. A decimal such as \<open>Decimal('5.25')\<close> is the number of hundredths.
  A payload value is the value a serializer field receives after the parser has run; a
  value the field cannot coerce is a value of another constructor.
\<close>

datatype val =
    VNull
  | VInt int
  | VDec int
  | VStr string
  | VUser nat
  | VFile string
  | VList "val list"
  | VDict "(string \<times> val) list"

type_synonym dict = "(string \<times> val) list"

section \<open>Entities (core.models)\<close>

text \<open>
  Modelled from the spec: the declarations of \<open>Recipe\<close>, \<open>Tag\<close> and \<open>Ingredient\<close> live in
  \<open>core/models.py\<close>, which is not among the sources. The spec's data model gives a recipe an
  identity, an owner, title, time_minutes, price, optional link and description, an optional
  image and many-to-many associations with tags and ingredients; a tag or ingredient has an
  identity, an owner and a name. An association is the identity of the associated row.
\<close>

record recipe =
  rid :: nat
  user :: nat
  title :: string
  time_minutes :: int
  price :: int
  link :: string
  description :: string
  tags :: "nat list"
  ingredients :: "nat list"
  image :: "string option"

record attr =
  attr_id :: nat
  attr_user :: nat
  name :: string

record db =
  Recipe_objects :: "recipe list"
  Tag_objects :: "attr list"
  Ingredient_objects :: "attr list"

text \<open>Python's \<open>getattr(recipe, f)\<close> and \<open>setattr(recipe, f, v)\<close> on the scalar attributes.\<close>

definition getattr_recipe :: "recipe \<Rightarrow> string \<Rightarrow> val option" where
  "getattr_recipe r f =
     (if f = ''id'' then Some (VInt (int (rid r)))
      else if f = ''user'' then Some (VUser (user r))
      else if f = ''title'' then Some (VStr (title r))
      else if f = ''time_minutes'' then Some (VInt (time_minutes r))
      else if f = ''price'' then Some (VDec (price r))
      else if f = ''link'' then Some (VStr (link r))
      else if f = ''description'' then Some (VStr (description r))
      else None)"

fun setattr_recipe :: "string \<times> val \<Rightarrow> recipe \<Rightarrow> recipe" where
  "setattr_recipe (f, VInt n) r =
     (if f = ''id'' then r\<lparr>rid := nat n\<rparr>
      else if f = ''time_minutes'' then r\<lparr>time_minutes := n\<rparr>
      else r)"
| "setattr_recipe (f, VUser u) r = (if f = ''user'' then r\<lparr>user := u\<rparr> else r)"
| "setattr_recipe (f, VDec d) r = (if f = ''price'' then r\<lparr>price := d\<rparr> else r)"
| "setattr_recipe (f, VStr s) r =
     (if f = ''title'' then r\<lparr>title := s\<rparr>
      else if f = ''link'' then r\<lparr>link := s\<rparr>
      else if f = ''description'' then r\<lparr>description := s\<rparr>
      else r)"
| "setattr_recipe (f, v) r = r"

section \<open>Serializers (recipe/serializers.py)\<close>

record meta =
  Meta_fields :: "string list"
  Meta_read_only_fields :: "string list"

datatype serializer_class = RecipeSerializer | RecipeDetailSerializer

definition RecipeSerializer_Meta :: meta where
  "RecipeSerializer_Meta =
     \<lparr>Meta_fields = [''id'', ''title'', ''time_minutes'', ''price'', ''link''],
      Meta_read_only_fields = [''id'']\<rparr>"

definition RecipeDetailSerializer_Meta :: meta where
  "RecipeDetailSerializer_Meta =
     RecipeSerializer_Meta\<lparr>Meta_fields := Meta_fields RecipeSerializer_Meta @ [''description'']\<rparr>"

fun Meta :: "serializer_class \<Rightarrow> meta" where
  "Meta RecipeSerializer = RecipeSerializer_Meta"
| "Meta RecipeDetailSerializer = RecipeDetailSerializer_Meta"

text \<open>
  The framework's \<open>ModelSerializer\<close>: the representation of an instance lists the declared
  fields in order; the writable fields are the declared fields that are not read-only;
  \<open>to_internal_value\<close> reads the writable fields from the payload and nothing else, so a
  payload key that is no writable field never reaches \<open>validated_data\<close>.
\<close>

definition to_representation :: "serializer_class \<Rightarrow> recipe \<Rightarrow> dict" where
  "to_representation sc r =
     List.map_filter (\<lambda>f. map_option (Pair f) (getattr_recipe r f)) (Meta_fields (Meta sc))"

definition writable_fields :: "serializer_class \<Rightarrow> string list" where
  "writable_fields sc =
     filter (\<lambda>f. f \<notin> set (Meta_read_only_fields (Meta sc))) (Meta_fields (Meta sc))"

text \<open>
  Modelled from the spec: which model fields are required and what each accepts is declared
  in \<open>core/models.py\<close>. The spec makes link and description optional, time_minutes a
  non-negative integer, price a decimal and the others text.
\<close>

definition required :: "string \<Rightarrow> bool" where
  "required f = (f \<in> {''title'', ''time_minutes'', ''price''})"

fun field_valid :: "string \<Rightarrow> val \<Rightarrow> bool" where
  "field_valid f (VInt n) = (f = ''time_minutes'' \<and> 0 \<le> n)"
| "field_valid f (VDec d) = (f = ''price'')"
| "field_valid f (VStr s) = (f \<in> {''title'', ''link'', ''description''})"
| "field_valid f v = False"

fun to_internal_value :: "bool \<Rightarrow> dict \<Rightarrow> string list \<Rightarrow> string list \<times> dict" where
  "to_internal_value partial data [] = ([], [])"
| "to_internal_value partial data (f # fs) =
     (let (errors, ret) = to_internal_value partial data fs in
      case map_of data f of
        None \<Rightarrow> if \<not> partial \<and> required f then (f # errors, ret) else (errors, ret)
      | Some v \<Rightarrow> if field_valid f v then (errors, (f, v) # ret) else (f # errors, ret))"

text \<open>\<open>serializer.is_valid()\<close>: the names of the failing fields, or \<open>validated_data\<close>.\<close>

definition is_valid :: "serializer_class \<Rightarrow> bool \<Rightarrow> dict \<Rightarrow> string list + dict" where
  "is_valid sc partial data =
     (let (errors, ret) = to_internal_value partial data (writable_fields sc) in
      if errors = [] then Inr ret else Inl errors)"

text \<open>
  \<open>serializer.save(**kwargs)\<close> merges the keyword arguments over \<open>validated_data\<close>
  (\<open>{**validated_data, **kwargs}\<close>), then creates a row from them or sets each of them on the
  instance.
\<close>

definition merge :: "dict \<Rightarrow> dict \<Rightarrow> dict" where
  "merge validated_data kwargs =
     filter (\<lambda>(k, v). k \<notin> fst ` set kwargs) validated_data @ kwargs"

definition serializer_update :: "recipe \<Rightarrow> dict \<Rightarrow> recipe" where
  "serializer_update instance validated_data = fold setattr_recipe validated_data instance"

definition new_id :: "nat list \<Rightarrow> nat" where
  "new_id ids = Suc (fold max ids 0)"

definition blank_recipe :: "nat \<Rightarrow> nat \<Rightarrow> recipe" where
  "blank_recipe i u =
     \<lparr>rid = i, user = u, title = [], time_minutes = 0, price = 0, link = [],
      description = [], tags = [], ingredients = [], image = None\<rparr>"

text \<open>
  \<open>Recipe.objects.create(**validated_data)\<close>: the store assigns the next identity; a row
  without an owner is refused by the store (\<open>None\<close>).
\<close>

definition serializer_create :: "db \<Rightarrow> dict \<Rightarrow> recipe option" where
  "serializer_create d validated_data =
     (case map_of validated_data ''user'' of
        Some (VUser u) \<Rightarrow>
          Some (fold setattr_recipe validated_data
                  (blank_recipe (new_id (map rid (Recipe_objects d))) u))
      | _ \<Rightarrow> None)"

text \<open>\<open>instance.save()\<close>: update the row with the instance's identity, insert when there is none.\<close>

definition save_recipe :: "recipe \<Rightarrow> recipe list \<Rightarrow> recipe list" where
  "save_recipe r rs =
     (if rid r \<in> rid ` set rs then map (\<lambda>x. if rid x = rid r then r else x) rs
      else rs @ [r])"

section \<open>RecipeViewSet (recipe/views.py)\<close>

datatype action =
  A_list | A_create | A_retrieve | A_update | A_partial_update | A_destroy

record viewset =
  action :: action
  serializer_class :: serializer_class

text \<open>The framework instantiates the view class for each request and sets its action.\<close>

definition RecipeViewSet :: "action \<Rightarrow> viewset" where
  "RecipeViewSet a = \<lparr>action = a, serializer_class = RecipeDetailSerializer\<rparr>"

text \<open>\<open>get_serializer_class\<close> assigns to \<open>self.serializer_class\<close>, so it returns the instance too.\<close>

definition get_serializer_class :: "viewset \<Rightarrow> serializer_class \<times> viewset" where
  "get_serializer_class self =
     (let self' = (if action self = A_list
                   then self\<lparr>serializer_class := RecipeSerializer\<rparr> else self)
      in (serializer_class self', self'))"

record request =
  request_user :: "nat option"
  query_params :: "(string \<times> string) list"
  request_data :: dict

datatype response = Response (status_code: nat) (response_data: val)

text \<open>
  \<open>self.queryset.filter(user=self.request.user).order_by('-id')\<close>. The user of a request
  that carries no valid token is \<open>None\<close> and owns no row.
\<close>

definition get_queryset :: "db \<Rightarrow> request \<Rightarrow> recipe list" where
  "get_queryset d req =
     rev (sort_key rid (filter (\<lambda>r. Some (user r) = request_user req) (Recipe_objects d)))"

text \<open>
  \<open>serializer.save(user=self.request.user)\<close>, followed by the insertion of the new row.
\<close>

definition perform_create :: "db \<Rightarrow> request \<Rightarrow> dict \<Rightarrow> recipe option" where
  "perform_create d req validated_data =
     serializer_create d
       (merge validated_data
          [(''user'', case request_user req of Some u \<Rightarrow> VUser u | None \<Rightarrow> VNull)])"

text \<open>
  The actions \<open>ModelViewSet\<close> inherits from the framework's mixins. \<open>get_object\<close> looks the
  primary key up in \<open>get_queryset()\<close> and raises \<open>Http404\<close> when it is not there.
\<close>

definition get_object :: "db \<Rightarrow> request \<Rightarrow> nat \<Rightarrow> recipe option" where
  "get_object d req pk = find (\<lambda>r. rid r = pk) (get_queryset d req)"

definition error_detail :: "string list \<Rightarrow> val" where
  "error_detail errors = VDict (map (\<lambda>f. (f, VStr ''invalid'')) errors)"

definition list_action :: "viewset \<Rightarrow> db \<Rightarrow> request \<Rightarrow> response \<times> db" where
  "list_action self d req =
     (let sc = fst (get_serializer_class self) in
      (Response 200 (VList (map (\<lambda>r. VDict (to_representation sc r)) (get_queryset d req))),
       d))"

definition retrieve :: "viewset \<Rightarrow> db \<Rightarrow> request \<Rightarrow> nat \<Rightarrow> response \<times> db" where
  "retrieve self d req pk =
     (let sc = fst (get_serializer_class self) in
      case get_object d req pk of
        None \<Rightarrow> (Response 404 VNull, d)
      | Some instance \<Rightarrow> (Response 200 (VDict (to_representation sc instance)), d))"

definition create :: "viewset \<Rightarrow> db \<Rightarrow> request \<Rightarrow> response \<times> db" where
  "create self d req =
     (let sc = fst (get_serializer_class self) in
      case is_valid sc False (request_data req) of
        Inl errors \<Rightarrow> (Response 400 (error_detail errors), d)
      | Inr validated_data \<Rightarrow>
          (case perform_create d req validated_data of
             None \<Rightarrow> (Response 500 VNull, d)
           | Some r \<Rightarrow>
               (Response 201 (VDict (to_representation sc r)),
                d\<lparr>Recipe_objects := save_recipe r (Recipe_objects d)\<rparr>)))"

definition update :: "viewset \<Rightarrow> bool \<Rightarrow> db \<Rightarrow> request \<Rightarrow> nat \<Rightarrow> response \<times> db" where
  "update self partial d req pk =
     (let sc = fst (get_serializer_class self) in
      case get_object d req pk of
        None \<Rightarrow> (Response 404 VNull, d)
      | Some instance \<Rightarrow>
          (case is_valid sc partial (request_data req) of
             Inl errors \<Rightarrow> (Response 400 (error_detail errors), d)
           | Inr validated_data \<Rightarrow>
               (let r = serializer_update instance validated_data in
                (Response 200 (VDict (to_representation sc r)),
                 d\<lparr>Recipe_objects := save_recipe r (Recipe_objects d)\<rparr>))))"

definition destroy :: "db \<Rightarrow> request \<Rightarrow> nat \<Rightarrow> response \<times> db" where
  "destroy d req pk =
     (case get_object d req pk of
        None \<Rightarrow> (Response 404 VNull, d)
      | Some instance \<Rightarrow>
          (Response 204 VNull,
           d\<lparr>Recipe_objects := filter (\<lambda>r. rid r \<noteq> rid instance) (Recipe_objects d)\<rparr>))"

text \<open>The action a request reaches, run on a fresh instance of the view class.\<close>

fun RecipeViewSet_action :: "action \<Rightarrow> db \<Rightarrow> request \<Rightarrow> nat \<Rightarrow> response \<times> db" where
  "RecipeViewSet_action A_list d req pk = list_action (RecipeViewSet A_list) d req"
| "RecipeViewSet_action A_create d req pk = create (RecipeViewSet A_create) d req"
| "RecipeViewSet_action A_retrieve d req pk = retrieve (RecipeViewSet A_retrieve) d req pk"
| "RecipeViewSet_action A_update d req pk = update (RecipeViewSet A_update) False d req pk"
| "RecipeViewSet_action A_partial_update d req pk =
     update (RecipeViewSet A_partial_update) True d req pk"
| "RecipeViewSet_action A_destroy d req pk = destroy d req pk"

text \<open>The primary key of the store: no two rows of a table share an identity.\<close>

definition pk_unique :: "db \<Rightarrow> bool" where
  "pk_unique d =
     (distinct (map rid (Recipe_objects d)) \<and> distinct (map attr_id (Tag_objects d))
      \<and> distinct (map attr_id (Ingredient_objects d)))"

section \<open>BaseRecipeAttrViewSet, TagViewSet and IngredientViewSet (recipe/views.py)\<close>

datatype attr_model = Tag | Ingredient

fun objects :: "attr_model \<Rightarrow> db \<Rightarrow> attr list" where
  "objects Tag d = Tag_objects d"
| "objects Ingredient d = Ingredient_objects d"

fun objects_update :: "attr_model \<Rightarrow> attr list \<Rightarrow> db \<Rightarrow> db" where
  "objects_update Tag rows d = d\<lparr>Tag_objects := rows\<rparr>"
| "objects_update Ingredient rows d = d\<lparr>Ingredient_objects := rows\<rparr>"

text \<open>\<open>self.queryset.filter(user=self.request.user).order_by('-name')\<close>\<close>

definition BaseRecipeAttrViewSet_get_queryset :: "attr_model \<Rightarrow> db \<Rightarrow> request \<Rightarrow> attr list" where
  "BaseRecipeAttrViewSet_get_queryset m d req =
     rev (sort_key name (filter (\<lambda>t. Some (attr_user t) = request_user req) (objects m d)))"

text \<open>
  Modelled from the spec: \<open>TagSerializer\<close> and \<open>IngredientSerializer\<close> are imported by the
  views and not defined in \<open>recipe/serializers.py\<close>. The spec gives a tag or ingredient an
  identity and a name and makes update a rename: the representation is the identity and the
  name, and the name is the one writable field.
\<close>

definition attr_to_representation :: "attr \<Rightarrow> dict" where
  "attr_to_representation t = [(''id'', VInt (int (attr_id t))), (''name'', VStr (name t))]"

definition attr_is_valid :: "bool \<Rightarrow> dict \<Rightarrow> string list + dict" where
  "attr_is_valid partial data =
     (case map_of data ''name'' of
        None \<Rightarrow> if partial then Inr [] else Inl [''name'']
      | Some (VStr s) \<Rightarrow> Inr [(''name'', VStr s)]
      | Some _ \<Rightarrow> Inl [''name''])"

fun setattr_attr :: "string \<times> val \<Rightarrow> attr \<Rightarrow> attr" where
  "setattr_attr (f, VStr s) t = (if f = ''name'' then t\<lparr>name := s\<rparr> else t)"
| "setattr_attr (f, v) t = t"

definition attr_get_object :: "attr_model \<Rightarrow> db \<Rightarrow> request \<Rightarrow> nat \<Rightarrow> attr option" where
  "attr_get_object m d req pk =
     find (\<lambda>t. attr_id t = pk) (BaseRecipeAttrViewSet_get_queryset m d req)"

definition attr_list :: "attr_model \<Rightarrow> db \<Rightarrow> request \<Rightarrow> response \<times> db" where
  "attr_list m d req =
     (Response 200
        (VList (map (\<lambda>t. VDict (attr_to_representation t))
                  (BaseRecipeAttrViewSet_get_queryset m d req))),
      d)"

definition attr_update ::
  "attr_model \<Rightarrow> bool \<Rightarrow> db \<Rightarrow> request \<Rightarrow> nat \<Rightarrow> response \<times> db" where
  "attr_update m partial d req pk =
     (case attr_get_object m d req pk of
        None \<Rightarrow> (Response 404 VNull, d)
      | Some instance \<Rightarrow>
          (case attr_is_valid partial (request_data req) of
             Inl errors \<Rightarrow> (Response 400 (error_detail errors), d)
           | Inr validated_data \<Rightarrow>
               (let t = fold setattr_attr validated_data instance in
                (Response 200 (VDict (attr_to_representation t)),
                 objects_update m
                   (map (\<lambda>x. if attr_id x = attr_id t then t else x) (objects m d)) d))))"

text \<open>
  Deleting a row deletes the association rows that refer to it (the store's cascade on the
  many-to-many table), not the recipes.
\<close>

fun unlink :: "attr_model \<Rightarrow> nat \<Rightarrow> recipe \<Rightarrow> recipe" where
  "unlink Tag pk r = r\<lparr>tags := removeAll pk (tags r)\<rparr>"
| "unlink Ingredient pk r = r\<lparr>ingredients := removeAll pk (ingredients r)\<rparr>"

definition attr_destroy :: "attr_model \<Rightarrow> db \<Rightarrow> request \<Rightarrow> nat \<Rightarrow> response \<times> db" where
  "attr_destroy m d req pk =
     (case attr_get_object m d req pk of
        None \<Rightarrow> (Response 404 VNull, d)
      | Some instance \<Rightarrow>
          (Response 204 VNull,
           objects_update m (filter (\<lambda>x. attr_id x \<noteq> attr_id instance) (objects m d))
             (d\<lparr>Recipe_objects := map (unlink m (attr_id instance)) (Recipe_objects d)\<rparr>)))"

section \<open>Routing\<close>

text \<open>
  The framework's router gives a view set a list route (GET list, POST create) and a detail
  route (GET retrieve, PUT update, PATCH partial_update, DELETE destroy), binds a method only
  when the class has the action, and adds a route for each method the class marks as an extra
  action. The actions a class has are those of the mixins it inherits; neither view class
  declares an extra action. A path with no route is not found; a bound route authenticates
  the request before it looks at the method.
\<close>

datatype http_method = GET | POST | PUT | PATCH | DELETE

datatype mixin =
  CreateModelMixin | RetrieveModelMixin | UpdateModelMixin | DestroyModelMixin | ListModelMixin

fun mixin_actions :: "mixin \<Rightarrow> action list" where
  "mixin_actions CreateModelMixin = [A_create]"
| "mixin_actions RetrieveModelMixin = [A_retrieve]"
| "mixin_actions UpdateModelMixin = [A_update, A_partial_update]"
| "mixin_actions DestroyModelMixin = [A_destroy]"
| "mixin_actions ListModelMixin = [A_list]"

definition ModelViewSet_bases :: "mixin list" where
  "ModelViewSet_bases =
     [CreateModelMixin, RetrieveModelMixin, UpdateModelMixin, DestroyModelMixin, ListModelMixin]"

definition BaseRecipeAttrViewSet_bases :: "mixin list" where
  "BaseRecipeAttrViewSet_bases = [UpdateModelMixin, ListModelMixin, DestroyModelMixin]"

definition RecipeViewSet_extra_actions :: "string list" where
  "RecipeViewSet_extra_actions = []"

definition BaseRecipeAttrViewSet_extra_actions :: "string list" where
  "BaseRecipeAttrViewSet_extra_actions = []"

datatype url = Url_list | Url_detail nat | Url_extra nat string

fun route_mapping :: "url \<Rightarrow> http_method \<Rightarrow> action option" where
  "route_mapping Url_list GET = Some A_list"
| "route_mapping Url_list POST = Some A_create"
| "route_mapping (Url_detail pk) GET = Some A_retrieve"
| "route_mapping (Url_detail pk) PUT = Some A_update"
| "route_mapping (Url_detail pk) PATCH = Some A_partial_update"
| "route_mapping (Url_detail pk) DELETE = Some A_destroy"
| "route_mapping u m = None"

fun url_pk :: "url \<Rightarrow> nat" where
  "url_pk Url_list = 0"
| "url_pk (Url_detail pk) = pk"
| "url_pk (Url_extra pk nm) = pk"

definition handler :: "mixin list \<Rightarrow> url \<Rightarrow> http_method \<Rightarrow> action option" where
  "handler bases u m =
     (case route_mapping u m of
        Some a \<Rightarrow> if a \<in> set (concat (map mixin_actions bases)) then Some a else None
      | None \<Rightarrow> None)"

fun resolves :: "mixin list \<Rightarrow> string list \<Rightarrow> url \<Rightarrow> bool" where
  "resolves bases extra (Url_extra pk nm) = (nm \<in> set extra)"
| "resolves bases extra u =
     (\<exists>m \<in> set [GET, POST, PUT, PATCH, DELETE]. handler bases u m \<noteq> None)"

definition dispatch ::
  "mixin list \<Rightarrow> string list \<Rightarrow> (action \<Rightarrow> db \<Rightarrow> request \<Rightarrow> nat \<Rightarrow> response \<times> db)
     \<Rightarrow> db \<Rightarrow> http_method \<Rightarrow> url \<Rightarrow> request \<Rightarrow> response \<times> db" where
  "dispatch bases extra view d m u req =
     (if \<not> resolves bases extra u then (Response 404 VNull, d)
      else if request_user req = None then (Response 401 VNull, d)
      else case handler bases u m of
             None \<Rightarrow> (Response 405 VNull, d)
           | Some a \<Rightarrow> view a d req (url_pk u))"

definition RecipeViewSet_dispatch ::
  "db \<Rightarrow> http_method \<Rightarrow> url \<Rightarrow> request \<Rightarrow> response \<times> db" where
  "RecipeViewSet_dispatch =
     dispatch ModelViewSet_bases RecipeViewSet_extra_actions RecipeViewSet_action"

text \<open>An action the class does not inherit is never bound, so it is never run.\<close>

fun BaseRecipeAttrViewSet_action ::
  "attr_model \<Rightarrow> action \<Rightarrow> db \<Rightarrow> request \<Rightarrow> nat \<Rightarrow> response \<times> db" where
  "BaseRecipeAttrViewSet_action m A_list d req pk = attr_list m d req"
| "BaseRecipeAttrViewSet_action m A_update d req pk = attr_update m False d req pk"
| "BaseRecipeAttrViewSet_action m A_partial_update d req pk = attr_update m True d req pk"
| "BaseRecipeAttrViewSet_action m A_destroy d req pk = attr_destroy m d req pk"
| "BaseRecipeAttrViewSet_action m a d req pk = (Response 405 VNull, d)"

definition TagViewSet_dispatch ::
  "db \<Rightarrow> http_method \<Rightarrow> url \<Rightarrow> request \<Rightarrow> response \<times> db" where
  "TagViewSet_dispatch =
     dispatch BaseRecipeAttrViewSet_bases BaseRecipeAttrViewSet_extra_actions
       (BaseRecipeAttrViewSet_action Tag)"

definition IngredientViewSet_dispatch ::
  "db \<Rightarrow> http_method \<Rightarrow> url \<Rightarrow> request \<Rightarrow> response \<times> db" where
  "IngredientViewSet_dispatch =
     dispatch BaseRecipeAttrViewSet_bases BaseRecipeAttrViewSet_extra_actions
       (BaseRecipeAttrViewSet_action Ingredient)"

fun AttrViewSet_dispatch ::
  "attr_model \<Rightarrow> db \<Rightarrow> http_method \<Rightarrow> url \<Rightarrow> request \<Rightarrow> response \<times> db" where
  "AttrViewSet_dispatch Tag = TagViewSet_dispatch"
| "AttrViewSet_dispatch Ingredient = IngredientViewSet_dispatch"

section \<open>Fixtures of the test suite (recipe/tests/test_recipe_api.py)\<close>

text \<open>\<open>create_recipe(user, **params)\<close> with the defaults of the test helper.\<close>

definition sample_recipe :: "nat \<Rightarrow> nat \<Rightarrow> string \<Rightarrow> nat list \<Rightarrow> recipe" where
  "sample_recipe i u t tg =
     \<lparr>rid = i, user = u, title = t, time_minutes = 22, price = 525,
      link = ''http://example.com/recipe.pdf'', description = ''Sample Description'',
      tags = tg, ingredients = [], image = None\<rparr>"

text \<open>
  User 1 owns three recipes, two of them tagged, and the tags Italian, Chinese and Indian;
  user 2 owns one recipe and one ingredient.
\<close>

definition test_db :: db where
  "test_db =
     \<lparr>Recipe_objects =
        [sample_recipe 1 1 ''7 Cheese Pizza'' [1], sample_recipe 2 1 ''Manchurian Dry'' [2],
         sample_recipe 3 1 ''Veg Fried Rice'' [], sample_recipe 4 2 ''Sample recipe title'' []],
      Tag_objects =
        [\<lparr>attr_id = 1, attr_user = 1, name = ''Italian''\<rparr>,
         \<lparr>attr_id = 2, attr_user = 1, name = ''Chinese''\<rparr>,
         \<lparr>attr_id = 3, attr_user = 1, name = ''Indian''\<rparr>],
      Ingredient_objects = [\<lparr>attr_id = 1, attr_user = 2, name = ''Cheese''\<rparr>]\<rparr>"

definition authenticated :: "nat \<Rightarrow> (string \<times> string) list \<Rightarrow> dict \<Rightarrow> request" where
  "authenticated u params payload =
     \<lparr>request_user = Some u, query_params = params, request_data = payload\<rparr>"

text \<open>The payload of \<open>test_create_recipe\<close> and the row it describes.\<close>

definition new_recipe_payload :: dict where
  "new_recipe_payload =
     [(''title'', VStr ''New Sample Recipe Title''), (''time_minutes'', VInt 77),
      (''price'', VDec 1825), (''description'', VStr ''Creating a sample recipe description'')]"

definition new_recipe :: "nat \<Rightarrow> nat \<Rightarrow> recipe" where
  "new_recipe i u =
     \<lparr>rid = i, user = u, title = ''New Sample Recipe Title'', time_minutes = 77, price = 1825,
      link = [], description = ''Creating a sample recipe description'',
      tags = [], ingredients = [], image = None\<rparr>"

text \<open>
  What a request may do to the owners of the stored recipes: every row it leaves in the store
  has the owner that the row of that identity had before, or is a row of a new identity owned
  by the caller, which only a create may add.
\<close>

definition owners_kept :: "db \<Rightarrow> request \<Rightarrow> bool \<Rightarrow> db \<Rightarrow> bool" where
  "owners_kept d req creating d' =
     (pk_unique d' \<and>
      (\<forall>r' \<in> set (Recipe_objects d').
         (\<forall>r \<in> set (Recipe_objects d). rid r = rid r' \<longrightarrow> user r' = user r) \<and>
         (rid r' \<notin> rid ` set (Recipe_objects d) \<longrightarrow>
            creating \<and> request_user req = Some (user r'))))"

text \<open>A create payload that names another user as owner and an identity of its own.\<close>

definition foreign_owner_payload :: dict where
  "foreign_owner_payload = new_recipe_payload @ [(''user'', VUser 2), (''id'', VInt 77)]"

text \<open>
  The payload of \<open>test_create_recipe_with_existing_tags\<close> and the row the create action
  stores for it.
\<close>

definition existing_tag_payload :: dict where
  "existing_tag_payload =
     [(''title'', VStr ''Peri Peri Paneer Indian Masala Sandwich''), (''time_minutes'', VInt 22),
      (''price'', VDec 725),
      (''tags'', VList [VDict [(''name'', VStr ''Indian'')], VDict [(''name'', VStr ''Lunch'')]])]"

definition sandwich :: recipe where
  "sandwich =
     \<lparr>rid = 5, user = 1, title = ''Peri Peri Paneer Indian Masala Sandwich'', time_minutes = 22,
      price = 725, link = [], description = [], tags = [], ingredients = [], image = None\<rparr>"

text \<open>The tag Italian of user 1 in the fixture store.\<close>

definition italian :: attr where
  "italian = \<lparr>attr_id = 1, attr_user = 1, name = ''Italian''\<rparr>"

section \<open>The serializers read and write the declared fields only\<close>

lemma to_internal_value_keys:
  "fst ` set (snd (to_internal_value partial data fs)) \<subseteq> set fs"
proof (induction fs)
  case Nil
  then show ?case by simp
next
  case (Cons f fs)
  then show ?case
    by (cases "to_internal_value partial data fs")
       (auto split: option.splits if_splits)
qed

lemma writable_fields_simps:
  "writable_fields RecipeSerializer = [''title'', ''time_minutes'', ''price'', ''link'']"
  "writable_fields RecipeDetailSerializer =
     [''title'', ''time_minutes'', ''price'', ''link'', ''description'']"
  by (simp_all add: writable_fields_def RecipeSerializer_Meta_def RecipeDetailSerializer_Meta_def)

lemma is_valid_keys:
  assumes "is_valid sc partial data = Inr vd"
  shows "fst ` set vd \<subseteq> set (writable_fields sc)"
proof -
  from assms have "vd = snd (to_internal_value partial data (writable_fields sc))"
    by (auto simp: is_valid_def split: prod.splits if_splits)
  then show ?thesis using to_internal_value_keys by simp
qed

lemma is_valid_no_id_user:
  assumes "is_valid sc partial data = Inr vd"
  shows "''id'' \<notin> fst ` set vd" and "''user'' \<notin> fst ` set vd"
  using is_valid_keys [OF assms] by (cases sc; auto simp: writable_fields_simps)+

lemma setattr_rid: "fst kv \<noteq> ''id'' \<Longrightarrow> rid (setattr_recipe kv r) = rid r"
  by (cases "(kv, r)" rule: setattr_recipe.cases) auto

lemma setattr_user: "fst kv \<noteq> ''user'' \<Longrightarrow> user (setattr_recipe kv r) = user r"
  by (cases "(kv, r)" rule: setattr_recipe.cases) auto

lemma fold_setattr_rid:
  "''id'' \<notin> fst ` set kw \<Longrightarrow> rid (fold setattr_recipe kw r) = rid r"
  by (induction kw arbitrary: r) (auto simp: setattr_rid)

lemma fold_setattr_user:
  "''user'' \<notin> fst ` set kw \<Longrightarrow> user (fold setattr_recipe kw r) = user r"
  by (induction kw arbitrary: r) (auto simp: setattr_user)

lemma repr_list:
  "to_representation RecipeSerializer r =
     [(''id'', VInt (int (rid r))), (''title'', VStr (title r)),
      (''time_minutes'', VInt (time_minutes r)), (''price'', VDec (price r)),
      (''link'', VStr (link r))]"
  by (simp add: to_representation_def RecipeSerializer_Meta_def List.map_filter_simps getattr_recipe_def)

lemma repr_detail:
  "to_representation RecipeDetailSerializer r =
     to_representation RecipeSerializer r @ [(''description'', VStr (description r))]"
  by (simp add: to_representation_def RecipeSerializer_Meta_def RecipeDetailSerializer_Meta_def List.map_filter_simps getattr_recipe_def)

lemma gsc: "fst (get_serializer_class (RecipeViewSet a)) =
   (if a = A_list then RecipeSerializer else RecipeDetailSerializer)"
  by (simp add: get_serializer_class_def RecipeViewSet_def Let_def)

section \<open>The query set of a request\<close>

lemma get_queryset_set:
  "request_user req = Some u \<Longrightarrow>
   set (get_queryset d req) = {r \<in> set (Recipe_objects d). user r = u}"
  by (auto simp: get_queryset_def)

lemma distinct_map_sort_key: "distinct (map f (sort_key g xs)) = distinct (map f xs)"
  by (simp add: distinct_map)

lemma find_SomeD: "find P xs = Some x \<Longrightarrow> x \<in> set xs \<and> P x"
  by (induction xs) (auto split: if_splits)

lemma get_queryset_distinct_ids:
  "distinct (map rid (Recipe_objects d)) \<Longrightarrow> distinct (map rid (get_queryset d req))"
  by (auto simp: get_queryset_def distinct_map intro: inj_on_subset)

lemma get_queryset_desc:
  assumes "distinct (map rid (Recipe_objects d))"
  shows "sorted_wrt (>) (map rid (get_queryset d req))"
proof -
  let ?xs = "sort_key rid (filter (\<lambda>r. Some (user r) = request_user req) (Recipe_objects d))"
  have "sorted (map rid ?xs)" by simp
  moreover have "distinct (map rid ?xs)"
    using assms by (simp add: distinct_map_sort_key distinct_map_filter)
  ultimately have "sorted_wrt (<) (map rid ?xs)"
    by (simp add: strict_sorted_iff)
  then have "sorted_wrt (>) (rev (map rid ?xs))"
    by (simp add: sorted_wrt_rev)
  then show ?thesis by (simp add: get_queryset_def rev_map)
qed

lemma get_object_Some:
  "get_object d req pk = Some r \<Longrightarrow>
   r \<in> set (Recipe_objects d) \<and> Some (user r) = request_user req \<and> rid r = pk"
  by (auto simp: get_object_def get_queryset_def dest!: find_SomeD)

lemma get_object_None_other:
  assumes "distinct (map rid (Recipe_objects d))" "r \<in> set (Recipe_objects d)"
    "Some (user r) \<noteq> request_user req"
  shows "get_object d req (rid r) = None"
proof (cases "get_object d req (rid r)")
  case (Some r')
  then have "r' \<in> set (Recipe_objects d)" "Some (user r') = request_user req" "rid r' = rid r"
    using get_object_Some by blast+
  with assms have "r' = r" by (meson distinct_map inj_onD)
  with \<open>Some (user r') = request_user req\<close> assms(3) show ?thesis by simp
qed simp

section \<open>Identities and owners under create and update\<close>

lemma fold_max_ge: "a \<le> fold max xs (a::nat)"
  by (induction xs arbitrary: a) (auto intro: order_trans [OF max.cobounded2])

lemma fold_max_upper: "x \<in> set xs \<Longrightarrow> x \<le> fold max xs (a::nat)"
  by (induction xs arbitrary: a) (auto intro: order_trans [OF max.cobounded1 fold_max_ge])

lemma new_id_fresh: "new_id ids \<notin> set ids"
  using fold_max_upper [of "new_id ids" ids 0] by (auto simp: new_id_def)

lemma save_recipe_existing:
  "rid r \<in> rid ` set rs \<Longrightarrow> map rid (save_recipe r rs) = map rid rs"
  by (auto simp: save_recipe_def)

lemma save_recipe_new:
  "rid r \<notin> rid ` set rs \<Longrightarrow> save_recipe r rs = rs @ [r]"
  by (simp add: save_recipe_def)

lemma serializer_update_rid:
  "is_valid sc partial data = Inr vd \<Longrightarrow> rid (serializer_update instance vd) = rid instance"
  by (simp add: serializer_update_def fold_setattr_rid is_valid_no_id_user)

lemma serializer_update_user:
  "is_valid sc partial data = Inr vd \<Longrightarrow> user (serializer_update instance vd) = user instance"
  by (simp add: serializer_update_def fold_setattr_user is_valid_no_id_user)

lemma merge_keys: "fst ` set (merge vd kw) \<subseteq> fst ` set vd \<union> fst ` set kw"
  by (auto simp: merge_def)

lemma map_of_merge_single: "map_of (merge vd [(k, v)]) k = Some v"
proof -
  have "map_of (filter (\<lambda>(k', v'). k' \<noteq> k) vd) k = None"
    by (auto simp: map_of_eq_None_iff)
  then show ?thesis by (simp add: merge_def map_add_def)
qed

lemma perform_create_Some:
  assumes "is_valid sc partial data = Inr vd" "perform_create d req vd = Some r"
  shows "request_user req = Some (user r) \<and> rid r = new_id (map rid (Recipe_objects d))"
proof -
  obtain u where u: "request_user req = Some u"
    using assms(2)
    by (cases "request_user req")
       (auto simp: perform_create_def serializer_create_def map_of_merge_single)
  let ?kw = "merge vd [(''user'', VUser u)]"
  have r: "r = fold setattr_recipe ?kw (blank_recipe (new_id (map rid (Recipe_objects d))) u)"
    using assms(2) u
    by (auto simp: perform_create_def serializer_create_def map_of_merge_single)
  have "''id'' \<notin> fst ` set ?kw"
    using is_valid_no_id_user(1) [OF assms(1)] merge_keys [of vd "[(''user'', VUser u)]"]
    by auto
  then have "rid r = new_id (map rid (Recipe_objects d))"
    by (simp add: r fold_setattr_rid blank_recipe_def)
  moreover have "user r = u"
    by (simp add: r merge_def)
  ultimately show ?thesis using u by simp
qed

lemma update_ids:
  "map rid (Recipe_objects (snd (update self partial d req pk))) = map rid (Recipe_objects d)"
proof (cases "get_object d req pk")
  case None
  then show ?thesis by (simp add: update_def Let_def)
next
  case (Some inst)
  then have "rid inst \<in> rid ` set (Recipe_objects d)"
    using get_object_Some by blast
  with Some show ?thesis
    by (auto simp: update_def Let_def serializer_update_rid save_recipe_existing split: sum.splits)
qed

lemma create_ids:
  "map rid (Recipe_objects (snd (create self d req))) = map rid (Recipe_objects d) \<or>
   map rid (Recipe_objects (snd (create self d req))) =
     map rid (Recipe_objects d) @ [new_id (map rid (Recipe_objects d))]"
proof -
  have "rid r \<notin> rid ` set (Recipe_objects d)"
    if "is_valid sc False (request_data req) = Inr vd" "perform_create d req vd = Some r"
    for sc vd r
    using perform_create_Some [OF that] new_id_fresh [of "map rid (Recipe_objects d)"] by simp
  then show ?thesis
    by (auto simp: create_def Let_def save_recipe_new dest: perform_create_Some
        split: sum.splits option.splits)
qed

section \<open>Representations\<close>

text \<open>
  C8: the list representation of a recipe is exactly id, title, time_minutes, price and link,
  the detail representation is the list representation followed by description, and id is
  read-only: whatever the payload holds, an update leaves the identities of the stored rows as
  they were and a create adds at most one row, whose identity is the one the store assigns.
\<close>

theorem recipe_representations:
  "to_representation RecipeSerializer r =
     [(''id'', VInt (int (rid r))), (''title'', VStr (title r)),
      (''time_minutes'', VInt (time_minutes r)), (''price'', VDec (price r)),
      (''link'', VStr (link r))]
   \<and> to_representation RecipeDetailSerializer r =
       to_representation RecipeSerializer r @ [(''description'', VStr (description r))]
   \<and> Meta_read_only_fields (Meta RecipeSerializer) = [''id'']
   \<and> Meta_read_only_fields (Meta RecipeDetailSerializer) = [''id'']
   \<and> map rid (Recipe_objects (snd (update self partial d req pk))) = map rid (Recipe_objects d)
   \<and> (map rid (Recipe_objects (snd (create self d req))) = map rid (Recipe_objects d) \<or>
       map rid (Recipe_objects (snd (create self d req))) =
         map rid (Recipe_objects d) @ [new_id (map rid (Recipe_objects d))])"
proof -
  have "Meta_read_only_fields (Meta RecipeSerializer) = [''id'']"
    "Meta_read_only_fields (Meta RecipeDetailSerializer) = [''id'']"
    by (simp_all add: RecipeSerializer_Meta_def RecipeDetailSerializer_Meta_def)
  then show ?thesis
    using repr_list [of r] repr_detail [of r] update_ids [of self partial d req pk]
      create_ids [of self d req]
    by blast
qed

section \<open>The serializer of an action\<close>

lemma list_items_no_description:
  "RecipeViewSet_action A_list d req pk = (Response st (VList items), d') \<Longrightarrow>
   VDict kvs \<in> set items \<Longrightarrow> ''description'' \<notin> fst ` set kvs"
  by (auto simp: list_action_def gsc repr_list Let_def)

lemma detail_response_has_description:
  assumes "a \<noteq> A_list" "RecipeViewSet_action a d req pk = (Response st (VDict kvs), d')"
    "st = 200 \<or> st = 201"
  shows "''description'' \<in> fst ` set kvs"
proof (cases a)
  case A_list
  with assms show ?thesis by simp
next
  case A_create
  with assms show ?thesis
    by (auto simp: create_def gsc repr_detail Let_def split: sum.splits option.splits)
next
  case A_retrieve
  with assms show ?thesis
    by (auto simp: retrieve_def gsc repr_detail Let_def split: option.splits)
next
  case A_update
  with assms show ?thesis
    by (auto simp: update_def gsc repr_detail Let_def split: sum.splits option.splits)
next
  case A_partial_update
  with assms show ?thesis
    by (auto simp: update_def gsc repr_detail Let_def split: sum.splits option.splits)
next
  case A_destroy
  with assms show ?thesis
    by (auto simp: destroy_def split: option.splits)
qed

text \<open>
  C10: on a view instance every action other than list selects the detail serializer and list
  selects the summary serializer; so a successful response of create, retrieve, update or
  partial update holds the description field and no item of a list response does.
\<close>

theorem detail_serializer_unless_list:
  "fst (get_serializer_class (RecipeViewSet a)) =
     (if a = A_list then RecipeSerializer else RecipeDetailSerializer)
   \<and> (a \<noteq> A_list \<and> RecipeViewSet_action a d req pk = (Response st (VDict kvs), d')
        \<and> (st = 200 \<or> st = 201) \<longrightarrow> ''description'' \<in> fst ` set kvs)
   \<and> (RecipeViewSet_action A_list d req pk = (Response st' (VList items), d'')
        \<and> VDict kvs' \<in> set items \<longrightarrow> ''description'' \<notin> fst ` set kvs')"
  using gsc [of a] detail_response_has_description [of a d req pk st kvs d']
    list_items_no_description [of d req pk st' items d'' kvs']
  by blast

theorem detail_serializer_unless_list_witness:
  "A_create \<noteq> A_list
   \<and> RecipeViewSet_action A_create test_db (authenticated 1 [] new_recipe_payload) 0 =
         (Response 201 (VDict (to_representation RecipeDetailSerializer (new_recipe 5 1))),
          test_db\<lparr>Recipe_objects := Recipe_objects test_db @ [new_recipe 5 1]\<rparr>)
   \<and> ''description'' \<in> fst ` set (to_representation RecipeDetailSerializer (new_recipe 5 1))
   \<and> RecipeViewSet_action A_list test_db (authenticated 2 [] []) 0 =
         (Response 200 (VList [VDict (to_representation RecipeSerializer
             (sample_recipe 4 2 ''Sample recipe title'' []))]), test_db)
   \<and> ''description'' \<notin> fst ` set (to_representation RecipeSerializer
             (sample_recipe 4 2 ''Sample recipe title'' []))"
proof -
  have c: "RecipeViewSet_action A_create test_db (authenticated 1 [] new_recipe_payload) 0 =
         (Response 201 (VDict (to_representation RecipeDetailSerializer (new_recipe 5 1))),
          test_db\<lparr>Recipe_objects := Recipe_objects test_db @ [new_recipe 5 1]\<rparr>)"
    by code_simp
  have l: "RecipeViewSet_action A_list test_db (authenticated 2 [] []) 0 =
         (Response 200 (VList [VDict (to_representation RecipeSerializer
             (sample_recipe 4 2 ''Sample recipe title'' []))]), test_db)"
    by code_simp
  note w1 = detail_serializer_unless_list [of A_create test_db
        "authenticated 1 [] new_recipe_payload" 0 201
        "to_representation RecipeDetailSerializer (new_recipe 5 1)"
        "test_db\<lparr>Recipe_objects := Recipe_objects test_db @ [new_recipe 5 1]\<rparr>"]
  note w2 = detail_serializer_unless_list [of A_list test_db "authenticated 2 [] []" 0 _ _ _
        200 "[VDict (to_representation RecipeSerializer
             (sample_recipe 4 2 ''Sample recipe title'' []))]" test_db
        "to_representation RecipeSerializer (sample_recipe 4 2 ''Sample recipe title'' [])"]
  show ?thesis
    using c l w1 w2 by simp
qed

section \<open>Requests on the recipe routes\<close>

lemma dispatch_recipe_authenticated:
  assumes "request_user req = Some u" "route_mapping url m = Some a"
  shows "RecipeViewSet_dispatch d m url req = RecipeViewSet_action a d req (url_pk url)"
proof -
  have a: "handler ModelViewSet_bases url m = Some a"
    using assms(2) by (cases a) (simp_all add: handler_def ModelViewSet_bases_def)
  have "m \<in> set [GET, POST, PUT, PATCH, DELETE]" by (cases m) simp_all
  with a have "resolves ModelViewSet_bases RecipeViewSet_extra_actions url"
    using assms(2) by (cases url) (auto simp del: set_simps List.set_simps)
  with a assms(1) show ?thesis
    by (simp add: RecipeViewSet_dispatch_def dispatch_def)
qed

text \<open>
  C3: for an authenticated caller the list operation answers 200 with the summary
  representation of exactly the rows of the store whose owner is the caller, each once, in
  strictly descending order of identity; the answer is the same when every row of another
  owner is taken out of the store.
\<close>

theorem list_is_callers_recipes_descending:
  assumes "pk_unique d" and "request_user req = Some u"
  shows "RecipeViewSet_dispatch d GET Url_list req =
           (Response 200
              (VList (map (\<lambda>r. VDict (to_representation RecipeSerializer r))
                        (get_queryset d req))), d)
         \<and> set (get_queryset d req) = {r \<in> set (Recipe_objects d). user r = u}
         \<and> distinct (get_queryset d req)
         \<and> sorted_wrt (>) (map rid (get_queryset d req))
         \<and> get_queryset d req =
             get_queryset (d\<lparr>Recipe_objects := filter (\<lambda>r. user r = u) (Recipe_objects d)\<rparr>) req"
proof -
  have ids: "distinct (map rid (Recipe_objects d))"
    using assms(1) by (simp add: pk_unique_def)
  have "RecipeViewSet_dispatch d GET Url_list req = RecipeViewSet_action A_list d req 0"
    using dispatch_recipe_authenticated [OF assms(2), of Url_list GET A_list d] by simp
  then have "RecipeViewSet_dispatch d GET Url_list req =
           (Response 200
              (VList (map (\<lambda>r. VDict (to_representation RecipeSerializer r))
                        (get_queryset d req))), d)"
    by (simp add: list_action_def gsc Let_def)
  moreover have "distinct (get_queryset d req)"
    using get_queryset_distinct_ids [OF ids, of req] by (simp add: distinct_map)
  moreover have "get_queryset d req =
             get_queryset (d\<lparr>Recipe_objects := filter (\<lambda>r. user r = u) (Recipe_objects d)\<rparr>) req"
    using assms(2) by (simp add: get_queryset_def)
  ultimately show ?thesis
    using get_queryset_set [OF assms(2), of d] get_queryset_desc [OF ids, of req] by blast
qed

theorem list_is_callers_recipes_descending_witness:
  "pk_unique test_db \<and> request_user (authenticated 1 [] []) = Some 1
   \<and> RecipeViewSet_dispatch test_db GET Url_list (authenticated 1 [] []) =
       (Response 200
          (VList (map (\<lambda>r. VDict (to_representation RecipeSerializer r))
             [sample_recipe 3 1 ''Veg Fried Rice'' [], sample_recipe 2 1 ''Manchurian Dry'' [2],
              sample_recipe 1 1 ''7 Cheese Pizza'' [1]])), test_db)
   \<and> sorted_wrt (>) (map rid (get_queryset test_db (authenticated 1 [] [])))"
proof -
  have h1: "pk_unique test_db" by code_simp
  have h2: "request_user (authenticated 1 [] []) = Some 1" by (simp add: authenticated_def)
  have q: "get_queryset test_db (authenticated 1 [] []) =
             [sample_recipe 3 1 ''Veg Fried Rice'' [], sample_recipe 2 1 ''Manchurian Dry'' [2],
              sample_recipe 1 1 ''7 Cheese Pizza'' [1]]"
    by code_simp
  show ?thesis
    using h1 h2 list_is_callers_recipes_descending [OF h1 h2] unfolding q by blast
qed

text \<open>
  C2: when the recipe of a path belongs to another user than the authenticated caller, the
  caller's retrieve, update, partial update and delete are answered 404 and the store is left
  as it was.
\<close>

theorem other_users_recipe_not_found:
  assumes "pk_unique d" and "r \<in> set (Recipe_objects d)" and "request_user req = Some b"
    and "user r \<noteq> b" and "m \<in> {GET, PUT, PATCH, DELETE}"
  shows "RecipeViewSet_dispatch d m (Url_detail (rid r)) req = (Response 404 VNull, d)"
proof -
  have ids: "distinct (map rid (Recipe_objects d))"
    using assms(1) by (simp add: pk_unique_def)
  have none: "get_object d req (rid r) = None"
    using get_object_None_other [OF ids assms(2)] assms(3,4) by simp
  from assms(5) consider "m = GET" | "m = PUT" | "m = PATCH" | "m = DELETE" by blast
  then show ?thesis
  proof cases
    case 1
    then show ?thesis
      using dispatch_recipe_authenticated [OF assms(3), of "Url_detail (rid r)" m A_retrieve d] none
      by (simp add: retrieve_def Let_def)
  next
    case 2
    then show ?thesis
      using dispatch_recipe_authenticated [OF assms(3), of "Url_detail (rid r)" m A_update d] none
      by (simp add: update_def Let_def)
  next
    case 3
    then show ?thesis
      using dispatch_recipe_authenticated [OF assms(3), of "Url_detail (rid r)" m A_partial_update d]
        none
      by (simp add: update_def Let_def)
  next
    case 4
    then show ?thesis
      using dispatch_recipe_authenticated [OF assms(3), of "Url_detail (rid r)" m A_destroy d] none
      by (simp add: destroy_def)
  qed
qed

theorem other_users_recipe_not_found_witness:
  "pk_unique test_db
   \<and> sample_recipe 4 2 ''Sample recipe title'' [] \<in> set (Recipe_objects test_db)
   \<and> request_user (authenticated 1 [] []) = Some 1
   \<and> user (sample_recipe 4 2 ''Sample recipe title'' []) \<noteq> 1
   \<and> RecipeViewSet_dispatch test_db DELETE (Url_detail 4) (authenticated 1 [] []) =
       (Response 404 VNull, test_db)"
proof -
  have h1: "pk_unique test_db" by code_simp
  have h2: "sample_recipe 4 2 ''Sample recipe title'' [] \<in> set (Recipe_objects test_db)"
    by (simp add: test_db_def)
  have h3: "request_user (authenticated 1 [] []) = Some 1" by (simp add: authenticated_def)
  have h4: "user (sample_recipe 4 2 ''Sample recipe title'' []) \<noteq> 1"
    by (simp add: sample_recipe_def)
  have h5: "DELETE \<in> {GET, PUT, PATCH, DELETE}" by simp
  have "rid (sample_recipe 4 2 ''Sample recipe title'' []) = 4" by (simp add: sample_recipe_def)
  with other_users_recipe_not_found [OF h1 h2 h3 h4 h5] h1 h2 h3 h4 show ?thesis by simp
qed

section \<open>Owners\<close>

lemma owners_kept_same_keys:
  assumes "pk_unique d"
    and "map (\<lambda>x. (rid x, user x)) rows = map (\<lambda>x. (rid x, user x)) (Recipe_objects d)"
  shows "owners_kept d req c (d\<lparr>Recipe_objects := rows\<rparr>)"
proof -
  have ids: "map rid rows = map rid (Recipe_objects d)"
    using arg_cong [OF assms(2), of "map fst"] by (simp add: comp_def)
  have dist: "distinct (map rid (Recipe_objects d))"
    using assms(1) by (simp add: pk_unique_def)
  have "user r' = user r \<and> rid r' \<in> rid ` set (Recipe_objects d)"
    if "r' \<in> set rows" "r \<in> set (Recipe_objects d)" "rid r = rid r'" for r r'
  proof -
    from that(1) have "(rid r', user r') \<in> set (map (\<lambda>x. (rid x, user x)) rows)" by force
    then obtain r0 where r0: "r0 \<in> set (Recipe_objects d)" "rid r0 = rid r'" "user r0 = user r'"
      unfolding assms(2) by auto
    with that(2,3) dist have "r0 = r" by (metis distinct_map inj_onD)
    with r0(3) have "user r' = user r" by simp
    moreover have "rid r' \<in> rid ` set (Recipe_objects d)"
      using that(2,3) by (metis imageI)
    ultimately show ?thesis by simp
  qed
  moreover have "rid r' \<in> rid ` set (Recipe_objects d)" if "r' \<in> set rows" for r'
  proof -
    from that have "rid r' \<in> set (map rid rows)" by force
    then show ?thesis unfolding ids by simp
  qed
  ultimately show ?thesis
    using assms(1) ids by (auto simp: owners_kept_def pk_unique_def)
qed

lemma owners_kept_refl: "pk_unique d \<Longrightarrow> owners_kept d req c d"
  using owners_kept_same_keys [of d "Recipe_objects d" req c] by simp

lemma owners_kept_update:
  assumes "pk_unique d"
  shows "owners_kept d req c (snd (update self partial d req pk))"
proof (cases "get_object d req pk")
  case None
  then show ?thesis using assms by (simp add: update_def Let_def owners_kept_refl)
next
  case (Some inst)
  note inst = get_object_Some [OF Some]
  have dist: "distinct (map rid (Recipe_objects d))"
    using assms by (simp add: pk_unique_def)
  show ?thesis
  proof (cases "is_valid (fst (get_serializer_class self)) partial (request_data req)")
    case (Inl errors)
    with Some assms show ?thesis by (simp add: update_def Let_def owners_kept_refl)
  next
    case (Inr vd)
    let ?r = "serializer_update inst vd"
    have r: "rid ?r = rid inst" "user ?r = user inst"
      using serializer_update_rid [OF Inr] serializer_update_user [OF Inr] by simp_all
    have same: "x = inst" if "x \<in> set (Recipe_objects d)" "rid x = rid inst" for x
      using that inst dist by (metis distinct_map inj_onD)
    have mem: "rid ?r \<in> rid ` set (Recipe_objects d)"
      using inst r(1) by (metis imageI)
    have "(if rid x = rid ?r then (rid ?r, user ?r) else (rid x, user x)) = (rid x, user x)"
      if "x \<in> set (Recipe_objects d)" for x
      using same [OF that] r by auto
    then have "map (\<lambda>x. (rid x, user x))
          (map (\<lambda>x. if rid x = rid ?r then ?r else x) (Recipe_objects d)) =
        map (\<lambda>x. (rid x, user x)) (Recipe_objects d)"
      by (simp add: comp_def if_distrib [of "\<lambda>x. (rid x, user x)"] cong: map_cong)
    then have "map (\<lambda>x. (rid x, user x)) (save_recipe ?r (Recipe_objects d)) =
        map (\<lambda>x. (rid x, user x)) (Recipe_objects d)"
      using mem by (simp add: save_recipe_def)
    from owners_kept_same_keys [OF assms this] Some Inr show ?thesis
      by (simp add: update_def Let_def)
  qed
qed

lemma same_id_same_row:
  assumes "pk_unique d" "r \<in> set (Recipe_objects d)" "r' \<in> set (Recipe_objects d)"
    "rid r = rid r'"
  shows "r = r'"
proof -
  have "inj_on rid (set (Recipe_objects d))"
    using assms(1) by (simp add: pk_unique_def distinct_map)
  then show ?thesis using assms(2-4) by (simp add: inj_on_def)
qed

lemma owners_kept_subset:
  assumes "pk_unique d" "set rows \<subseteq> set (Recipe_objects d)" "distinct (map rid rows)"
  shows "owners_kept d req c (d\<lparr>Recipe_objects := rows\<rparr>)"
  unfolding owners_kept_def
proof (intro conjI ballI impI)
  show "pk_unique (d\<lparr>Recipe_objects := rows\<rparr>)"
    using assms(1,3) by (simp add: pk_unique_def)
next
  fix r' r
  assume "r' \<in> set (Recipe_objects (d\<lparr>Recipe_objects := rows\<rparr>))"
    "r \<in> set (Recipe_objects d)" "rid r = rid r'"
  then have "r = r'"
    using same_id_same_row [OF assms(1), of r r'] assms(2) by auto
  then show "user r' = user r" by simp
next
  fix r'
  assume a: "r' \<in> set (Recipe_objects (d\<lparr>Recipe_objects := rows\<rparr>))"
    "rid r' \<notin> rid ` set (Recipe_objects d)"
  then have "r' \<in> set (Recipe_objects d)" using assms(2) by auto
  then have "rid r' \<in> rid ` set (Recipe_objects d)" by (rule imageI)
  with a(2) show c by simp
  from \<open>rid r' \<in> rid ` set (Recipe_objects d)\<close> a(2)
  show "request_user req = Some (user r')" by simp
qed

lemma owners_kept_destroy:
  assumes "pk_unique d"
  shows "owners_kept d req c (snd (destroy d req pk))"
proof (cases "get_object d req pk")
  case None
  then show ?thesis using assms by (simp add: destroy_def owners_kept_refl)
next
  case (Some inst)
  have "distinct (map rid (filter (\<lambda>r. rid r \<noteq> rid inst) (Recipe_objects d)))"
    using assms by (simp add: pk_unique_def distinct_map_filter)
  from owners_kept_subset [OF assms _ this, of req c] Some show ?thesis
    by (simp add: destroy_def)
qed

lemma owners_kept_append:
  assumes "pk_unique d" "rid r \<notin> rid ` set (Recipe_objects d)"
    "request_user req = Some (user r)"
  shows "owners_kept d req True (d\<lparr>Recipe_objects := Recipe_objects d @ [r]\<rparr>)"
  unfolding owners_kept_def
proof (intro conjI ballI impI)
  show "pk_unique (d\<lparr>Recipe_objects := Recipe_objects d @ [r]\<rparr>)"
    using assms(1,2) by (simp add: pk_unique_def)
next
  fix r' r0
  assume a: "r' \<in> set (Recipe_objects (d\<lparr>Recipe_objects := Recipe_objects d @ [r]\<rparr>))"
    "r0 \<in> set (Recipe_objects d)" "rid r0 = rid r'"
  have "r' \<noteq> r" using a(2,3) assms(2) by (metis imageI)
  with a(1) have "r' \<in> set (Recipe_objects d)" by simp
  then have "r0 = r'" using same_id_same_row [OF assms(1) a(2) _ a(3)] by simp
  then show "user r' = user r0" by simp
next
  show True by simp
next
  fix r'
  assume a: "r' \<in> set (Recipe_objects (d\<lparr>Recipe_objects := Recipe_objects d @ [r]\<rparr>))"
    "rid r' \<notin> rid ` set (Recipe_objects d)"
  have "r' \<notin> set (Recipe_objects d)" using a(2) by (metis imageI)
  with a(1) have "r' = r" by simp
  with assms(3) show "request_user req = Some (user r')" by simp
qed

lemma owners_kept_create:
  assumes "pk_unique d"
  shows "owners_kept d req True (snd (create self d req))"
proof (cases "is_valid (fst (get_serializer_class self)) False (request_data req)")
  case (Inl errors)
  then show ?thesis using assms by (simp add: create_def Let_def owners_kept_refl)
next
  case (Inr vd)
  show ?thesis
  proof (cases "perform_create d req vd")
    case None
    with Inr assms show ?thesis by (simp add: create_def Let_def owners_kept_refl)
  next
    case (Some r)
    note r = perform_create_Some [OF Inr Some]
    have fresh: "rid r \<notin> rid ` set (Recipe_objects d)"
      using r new_id_fresh [of "map rid (Recipe_objects d)"] by simp
    have "snd (create self d req) = d\<lparr>Recipe_objects := Recipe_objects d @ [r]\<rparr>"
      using Inr Some by (simp add: create_def Let_def save_recipe_new [OF fresh])
    with owners_kept_append [OF assms fresh] r show ?thesis by simp
  qed
qed

lemma owners_kept_action:
  assumes "pk_unique d"
  shows "owners_kept d req (a = A_create) (snd (RecipeViewSet_action a d req pk))"
proof (cases a)
  case A_list
  then show ?thesis using assms by (simp add: list_action_def Let_def owners_kept_refl)
next
  case A_create
  then show ?thesis using owners_kept_create [OF assms] by simp
next
  case A_retrieve
  then show ?thesis
    using assms by (simp add: retrieve_def Let_def owners_kept_refl split: option.splits)
next
  case A_update
  then show ?thesis using owners_kept_update [OF assms] by simp
next
  case A_partial_update
  then show ?thesis using owners_kept_update [OF assms] by simp
next
  case A_destroy
  then show ?thesis using owners_kept_destroy [OF assms] by simp
qed

lemma route_mapping_create: "route_mapping url m = Some A_create \<Longrightarrow> m = POST \<and> url = Url_list"
  by (cases "(url, m)" rule: route_mapping.cases) simp_all

lemma dispatch_recipe_cases:
  "snd (RecipeViewSet_dispatch d m url req) = d \<or>
   (\<exists>a. route_mapping url m = Some a \<and>
        RecipeViewSet_dispatch d m url req = RecipeViewSet_action a d req (url_pk url))"
  by (auto simp: RecipeViewSet_dispatch_def dispatch_def handler_def
      split: option.splits if_splits)

text \<open>
  C4: whatever request reaches the recipe routes and whatever its payload holds, every recipe
  that was stored before keeps its owner, and a recipe of a new identity exists only after a
  create (POST on the list route) and is owned by the authenticated caller of that request:
  a user value in the payload of create, update or partial update is ignored.
\<close>

theorem owner_is_creator_and_never_changes:
  assumes "pk_unique d" and "RecipeViewSet_dispatch d m url req = (resp, d')"
  shows "pk_unique d' \<and>
     (\<forall>r' \<in> set (Recipe_objects d').
        (\<forall>r \<in> set (Recipe_objects d). rid r = rid r' \<longrightarrow> user r' = user r) \<and>
        (rid r' \<notin> rid ` set (Recipe_objects d) \<longrightarrow>
           m = POST \<and> url = Url_list \<and> request_user req = Some (user r')))"
proof -
  have "owners_kept d req (m = POST \<and> url = Url_list) d'"
  proof -
    have d': "d' = snd (RecipeViewSet_dispatch d m url req)"
      using assms(2) by simp
    from dispatch_recipe_cases [of d m url req]
    consider "d' = d"
      | a where "route_mapping url m = Some a" "d' = snd (RecipeViewSet_action a d req (url_pk url))"
      unfolding d' by metis
    then show ?thesis
    proof cases
      case 1
      then show ?thesis using assms(1) by (simp add: owners_kept_refl)
    next
      case 2
      have "a = A_create \<longrightarrow> m = POST \<and> url = Url_list"
        using 2(1) route_mapping_create by blast
      with owners_kept_action [OF assms(1), of req a "url_pk url"] 2(2)
      show ?thesis by (auto simp: owners_kept_def)
    qed
  qed
  then show ?thesis by (simp add: owners_kept_def)
qed

theorem owner_is_creator_and_never_changes_witness:
  "pk_unique test_db
   \<and> RecipeViewSet_dispatch test_db POST Url_list (authenticated 1 [] foreign_owner_payload) =
       (Response 201 (VDict (to_representation RecipeDetailSerializer (new_recipe 5 1))),
        test_db\<lparr>Recipe_objects := Recipe_objects test_db @ [new_recipe 5 1]\<rparr>)
   \<and> pk_unique (test_db\<lparr>Recipe_objects := Recipe_objects test_db @ [new_recipe 5 1]\<rparr>)
   \<and> rid (new_recipe 5 1) \<notin> rid ` set (Recipe_objects test_db)
   \<and> request_user (authenticated 1 [] foreign_owner_payload) = Some (user (new_recipe 5 1))
   \<and> user (new_recipe 5 1) = 1"
proof -
  have h1: "pk_unique test_db" by code_simp
  have h2: "RecipeViewSet_dispatch test_db POST Url_list
              (authenticated 1 [] foreign_owner_payload) =
       (Response 201 (VDict (to_representation RecipeDetailSerializer (new_recipe 5 1))),
        test_db\<lparr>Recipe_objects := Recipe_objects test_db @ [new_recipe 5 1]\<rparr>)"
    by code_simp
  note c = owner_is_creator_and_never_changes [OF h1 h2]
  have mem: "new_recipe 5 1 \<in> set (Recipe_objects
      (test_db\<lparr>Recipe_objects := Recipe_objects test_db @ [new_recipe 5 1]\<rparr>))"
    by simp
  have fresh: "rid (new_recipe 5 1) \<notin> rid ` set (Recipe_objects test_db)"
    by (simp add: test_db_def new_recipe_def sample_recipe_def)
  note o = c [THEN conjunct2, THEN bspec, OF mem, THEN conjunct2, THEN mp, OF fresh]
  have u: "user (new_recipe 5 1) = 1" by (simp add: new_recipe_def)
  show ?thesis
    using h1 h2 c [THEN conjunct1] fresh o [THEN conjunct2, THEN conjunct2] u by blast
qed

section \<open>What the views and serializers of this revision leave out\<close>

lemma get_queryset_ignores_query_params:
  "get_queryset d (req\<lparr>query_params := params\<rparr>) = get_queryset d req"
  by (simp add: get_queryset_def)

text \<open>
  C1: \<open>get_queryset\<close> never reads the query parameters. A list request of user 1 with
  \<open>tags=1, 2\<close> is answered with all three recipes of the user, the untagged one included,
  where \<open>test_filter_recipe_by_tags\<close> expects the two tagged ones only.
\<close>

theorem list_ignores_tags_parameter:
  "get_queryset d (req\<lparr>query_params := params\<rparr>) = get_queryset d req
   \<and> RecipeViewSet_dispatch test_db GET Url_list (authenticated 1 [(''tags'', ''1, 2'')] []) =
       (Response 200
          (VList (map (\<lambda>r. VDict (to_representation RecipeSerializer r))
             [sample_recipe 3 1 ''Veg Fried Rice'' [], sample_recipe 2 1 ''Manchurian Dry'' [2],
              sample_recipe 1 1 ''7 Cheese Pizza'' [1]])), test_db)
   \<and> tags (sample_recipe 3 1 ''Veg Fried Rice'' []) = []"
proof -
  have "RecipeViewSet_dispatch test_db GET Url_list (authenticated 1 [(''tags'', ''1, 2'')] []) =
       (Response 200
          (VList (map (\<lambda>r. VDict (to_representation RecipeSerializer r))
             [sample_recipe 3 1 ''Veg Fried Rice'' [], sample_recipe 2 1 ''Manchurian Dry'' [2],
              sample_recipe 1 1 ''7 Cheese Pizza'' [1]])), test_db)"
    by code_simp
  moreover have "tags (sample_recipe 3 1 ''Veg Fried Rice'' []) = []"
    by (simp add: sample_recipe_def)
  ultimately show ?thesis using get_queryset_ignores_query_params by blast
qed

lemma recipe_actions_keep_attrs:
  "Tag_objects (snd (RecipeViewSet_action a d req pk)) = Tag_objects d
   \<and> Ingredient_objects (snd (RecipeViewSet_action a d req pk)) = Ingredient_objects d"
  by (cases a)
     (auto simp: list_action_def retrieve_def create_def update_def destroy_def Let_def
           split: option.splits sum.splits)

text \<open>
  C5: \<open>tags\<close> and \<open>ingredients\<close> are no fields of the recipe serializers, so inline entries
  are dropped. Creating a recipe with the tags Indian (which user 1 has) and Lunch (new) stores
  a recipe with no tag at all, and no recipe action ever changes the tag or ingredient table,
  where \<open>test_create_recipe_with_existing_tags\<close> expects both tags on the recipe.
\<close>

theorem inline_tags_are_dropped:
  "RecipeViewSet_dispatch test_db POST Url_list (authenticated 1 [] existing_tag_payload) =
     (Response 201 (VDict (to_representation RecipeDetailSerializer sandwich)),
      test_db\<lparr>Recipe_objects := Recipe_objects test_db @ [sandwich]\<rparr>)
   \<and> tags sandwich = []
   \<and> Tag_objects (snd (RecipeViewSet_action a d req pk)) = Tag_objects d
   \<and> Ingredient_objects (snd (RecipeViewSet_action a d req pk)) = Ingredient_objects d"
proof -
  have "RecipeViewSet_dispatch test_db POST Url_list (authenticated 1 [] existing_tag_payload) =
     (Response 201 (VDict (to_representation RecipeDetailSerializer sandwich)),
      test_db\<lparr>Recipe_objects := Recipe_objects test_db @ [sandwich]\<rparr>)"
    by code_simp
  moreover have "tags sandwich = []" by (simp add: sandwich_def)
  ultimately show ?thesis using recipe_actions_keep_attrs by blast
qed

text \<open>
  C6: a partial update of recipe 1 with the payload \<open>{tags: []}\<close> is answered 200 and leaves
  the store as it was: the recipe keeps its tag, where \<open>test_clear_recipe_tags\<close> expects none.
\<close>

theorem empty_tags_list_clears_nothing:
  "RecipeViewSet_dispatch test_db PATCH (Url_detail 1) (authenticated 1 [] [(''tags'', VList [])]) =
     (Response 200
        (VDict (to_representation RecipeDetailSerializer (sample_recipe 1 1 ''7 Cheese Pizza'' [1]))),
      test_db)
   \<and> sample_recipe 1 1 ''7 Cheese Pizza'' [1] \<in> set (Recipe_objects test_db)
   \<and> tags (sample_recipe 1 1 ''7 Cheese Pizza'' [1]) = [1]"
proof -
  have "RecipeViewSet_dispatch test_db PATCH (Url_detail 1)
          (authenticated 1 [] [(''tags'', VList [])]) =
     (Response 200
        (VDict (to_representation RecipeDetailSerializer (sample_recipe 1 1 ''7 Cheese Pizza'' [1]))),
      test_db)"
    by code_simp
  then show ?thesis by (simp add: test_db_def sample_recipe_def)
qed

text \<open>
  C7: the view set declares no upload action, so no path below a recipe resolves: the upload of
  an image and of a text that is no image are both answered 404 with the store unchanged, where
  \<open>ImageUploadTests\<close> expects 201 and 400.
\<close>

theorem upload_image_route_missing:
  "RecipeViewSet_dispatch d m (Url_extra pk nm) req = (Response 404 VNull, d)
   \<and> RecipeViewSet_dispatch test_db POST (Url_extra 1 ''upload-image'')
        (authenticated 1 [] [(''image'', VFile ''JFIF'')]) = (Response 404 VNull, test_db)
   \<and> RecipeViewSet_dispatch test_db POST (Url_extra 1 ''upload-image'')
        (authenticated 1 [] [(''image'', VStr ''notanimagefile'')]) = (Response 404 VNull, test_db)"
  by (simp add: RecipeViewSet_dispatch_def dispatch_def RecipeViewSet_extra_actions_def)

section \<open>The tag and ingredient routes\<close>

lemma find_unique:
  assumes "x \<in> set xs" "P x" "\<And>y. y \<in> set xs \<Longrightarrow> P y \<Longrightarrow> y = x"
  shows "find P xs = Some x"
proof -
  obtain y where y: "find P xs = Some y"
    using assms(1,2) by (cases "find P xs") (auto simp: find_None_iff)
  then have "y \<in> set xs \<and> P y" by (rule find_SomeD)
  then have "y = x" using assms(3) by blast
  with y show ?thesis by simp
qed

lemma find_none:
  assumes "\<And>y. y \<in> set xs \<Longrightarrow> \<not> P y"
  shows "find P xs = None"
  using assms by (simp add: find_None_iff)

lemma objects_distinct: "pk_unique d \<Longrightarrow> distinct (map attr_id (objects m d))"
  by (cases m) (simp_all add: pk_unique_def)

lemma same_attr_id_same_row:
  assumes "pk_unique d" "t \<in> set (objects m d)" "t' \<in> set (objects m d)"
    "attr_id t' = attr_id t"
  shows "t' = t"
proof -
  have "inj_on attr_id (set (objects m d))"
    using objects_distinct [OF assms(1), of m] by (simp add: distinct_map)
  then show ?thesis using assms(2-4) by (simp add: inj_on_def)
qed

lemma attr_get_object_own:
  assumes "pk_unique d" "t \<in> set (objects m d)" "request_user req = Some (attr_user t)"
  shows "attr_get_object m d req (attr_id t) = Some t"
  unfolding attr_get_object_def
proof (rule find_unique)
  show "t \<in> set (BaseRecipeAttrViewSet_get_queryset m d req)"
    using assms(2,3) by (simp add: BaseRecipeAttrViewSet_get_queryset_def)
  show "attr_id t = attr_id t" by simp
next
  fix y
  assume "y \<in> set (BaseRecipeAttrViewSet_get_queryset m d req)" "attr_id y = attr_id t"
  then show "y = t"
    using same_attr_id_same_row [OF assms(1,2), of y]
    by (simp add: BaseRecipeAttrViewSet_get_queryset_def)
qed

lemma attr_get_object_other:
  assumes "pk_unique d" "t \<in> set (objects m d)" "request_user req \<noteq> Some (attr_user t)"
  shows "attr_get_object m d req (attr_id t) = None"
  unfolding attr_get_object_def
proof (rule find_none)
  fix y
  assume y: "y \<in> set (BaseRecipeAttrViewSet_get_queryset m d req)"
  show "attr_id y \<noteq> attr_id t"
  proof
    assume "attr_id y = attr_id t"
    with y have "y = t"
      using same_attr_id_same_row [OF assms(1,2), of y]
      by (simp add: BaseRecipeAttrViewSet_get_queryset_def)
    with y assms(3) show False by (simp add: BaseRecipeAttrViewSet_get_queryset_def)
  qed
qed

lemma attr_handler:
  "handler BaseRecipeAttrViewSet_bases (Url_detail pk) GET = None"
  "handler BaseRecipeAttrViewSet_bases (Url_detail pk) PUT = Some A_update"
  "handler BaseRecipeAttrViewSet_bases (Url_detail pk) PATCH = Some A_partial_update"
  "handler BaseRecipeAttrViewSet_bases (Url_detail pk) DELETE = Some A_destroy"
  "handler BaseRecipeAttrViewSet_bases (Url_detail pk) POST = None"
  "resolves BaseRecipeAttrViewSet_bases BaseRecipeAttrViewSet_extra_actions (Url_detail pk)"
  by (simp_all add: handler_def BaseRecipeAttrViewSet_bases_def)

lemma attr_dispatch_unfold:
  "AttrViewSet_dispatch m d meth (Url_detail pk) req =
     (if request_user req = None then (Response 401 VNull, d)
      else case handler BaseRecipeAttrViewSet_bases (Url_detail pk) meth of
             None \<Rightarrow> (Response 405 VNull, d)
           | Some a \<Rightarrow> BaseRecipeAttrViewSet_action m a d req pk)"
  by (cases m)
     (auto simp: TagViewSet_dispatch_def IngredientViewSet_dispatch_def dispatch_def attr_handler
           split: option.splits)

lemma attr_update_own:
  assumes "pk_unique d" "t \<in> set (objects m d)" "request_user req = Some (attr_user t)"
    "map_of (request_data req) ''name'' = Some (VStr s)"
  shows "attr_update m partial d req (attr_id t) =
     (Response 200 (VDict (attr_to_representation (t\<lparr>name := s\<rparr>))),
      objects_update m
        (map (\<lambda>x. if attr_id x = attr_id t then t\<lparr>name := s\<rparr> else x) (objects m d)) d)"
  using attr_get_object_own [OF assms(1-3)] assms(4)
  by (simp add: attr_update_def attr_is_valid_def Let_def)

lemma attr_destroy_own:
  assumes "pk_unique d" "t \<in> set (objects m d)" "request_user req = Some (attr_user t)"
  shows "attr_destroy m d req (attr_id t) =
     (Response 204 VNull,
      objects_update m (filter (\<lambda>x. attr_id x \<noteq> attr_id t) (objects m d))
        (d\<lparr>Recipe_objects := map (unlink m (attr_id t)) (Recipe_objects d)\<rparr>))"
  using attr_get_object_own [OF assms] by (simp add: attr_destroy_def)

lemma attr_other_not_found:
  assumes "pk_unique d" "t \<in> set (objects m d)" "request_user req \<noteq> Some (attr_user t)"
    "request_user req \<noteq> None" "meth = PUT \<or> meth = PATCH \<or> meth = DELETE"
  shows "AttrViewSet_dispatch m d meth (Url_detail (attr_id t)) req = (Response 404 VNull, d)"
  using attr_get_object_other [OF assms(1-3)] assms(4,5)
  by (auto simp: attr_dispatch_unfold attr_handler attr_update_def attr_destroy_def)

text \<open>
  C9, as the code has it: for a tag or ingredient owned by the authenticated caller, PUT and
  PATCH on the detail route rename it (200), DELETE removes it and its associations (204), and
  GET on the detail route is not allowed (405), the view class inheriting no retrieve action;
  for another authenticated user the same row is not found (404), and a request without a
  valid token is answered 401.
\<close>

theorem attr_detail_is_update_and_delete:
  assumes "pk_unique d" and "t \<in> set (objects m d)" and "request_user req = Some (attr_user t)"
  shows "AttrViewSet_dispatch m d GET (Url_detail (attr_id t)) req = (Response 405 VNull, d)
     \<and> (map_of (request_data req) ''name'' = Some (VStr s) \<longrightarrow>
          AttrViewSet_dispatch m d PUT (Url_detail (attr_id t)) req =
            (Response 200 (VDict (attr_to_representation (t\<lparr>name := s\<rparr>))),
             objects_update m
               (map (\<lambda>x. if attr_id x = attr_id t then t\<lparr>name := s\<rparr> else x) (objects m d)) d)
          \<and> AttrViewSet_dispatch m d PATCH (Url_detail (attr_id t)) req =
              AttrViewSet_dispatch m d PUT (Url_detail (attr_id t)) req)
     \<and> AttrViewSet_dispatch m d DELETE (Url_detail (attr_id t)) req =
         (Response 204 VNull,
          objects_update m (filter (\<lambda>x. attr_id x \<noteq> attr_id t) (objects m d))
            (d\<lparr>Recipe_objects := map (unlink m (attr_id t)) (Recipe_objects d)\<rparr>))
     \<and> (request_user other \<noteq> Some (attr_user t) \<and> request_user other \<noteq> None
          \<and> (meth = PUT \<or> meth = PATCH \<or> meth = DELETE) \<longrightarrow>
          AttrViewSet_dispatch m d meth (Url_detail (attr_id t)) other = (Response 404 VNull, d))
     \<and> (request_user anonymous = None \<longrightarrow>
          AttrViewSet_dispatch m d meth (Url_detail (attr_id t)) anonymous =
            (Response 401 VNull, d))"
proof -
  have auth: "request_user req \<noteq> None" using assms(3) by simp
  have g: "AttrViewSet_dispatch m d GET (Url_detail (attr_id t)) req = (Response 405 VNull, d)"
    using auth by (simp add: attr_dispatch_unfold attr_handler)
  have u: "AttrViewSet_dispatch m d PUT (Url_detail (attr_id t)) req =
            (Response 200 (VDict (attr_to_representation (t\<lparr>name := s\<rparr>))),
             objects_update m
               (map (\<lambda>x. if attr_id x = attr_id t then t\<lparr>name := s\<rparr> else x) (objects m d)) d)
          \<and> AttrViewSet_dispatch m d PATCH (Url_detail (attr_id t)) req =
              AttrViewSet_dispatch m d PUT (Url_detail (attr_id t)) req"
    if "map_of (request_data req) ''name'' = Some (VStr s)"
    using auth attr_update_own [OF assms that]
    by (simp add: attr_dispatch_unfold attr_handler)
  have x: "AttrViewSet_dispatch m d DELETE (Url_detail (attr_id t)) req =
         (Response 204 VNull,
          objects_update m (filter (\<lambda>x. attr_id x \<noteq> attr_id t) (objects m d))
            (d\<lparr>Recipe_objects := map (unlink m (attr_id t)) (Recipe_objects d)\<rparr>))"
    using auth attr_destroy_own [OF assms] by (simp add: attr_dispatch_unfold attr_handler)
  have a: "AttrViewSet_dispatch m d meth (Url_detail (attr_id t)) anonymous =
            (Response 401 VNull, d)" if "request_user anonymous = None"
    using that by (simp add: attr_dispatch_unfold)
  show ?thesis
    using g u x a attr_other_not_found [OF assms(1,2), of other meth] by blast
qed

theorem attr_detail_is_update_and_delete_witness:
  "pk_unique test_db \<and> italian \<in> set (objects Tag test_db)
   \<and> request_user (authenticated 1 [] [(''name'', VStr ''Pasta'')]) = Some (attr_user italian)
   \<and> map_of (request_data (authenticated 1 [] [(''name'', VStr ''Pasta'')])) ''name'' =
       Some (VStr ''Pasta'')
   \<and> AttrViewSet_dispatch Tag test_db GET (Url_detail (attr_id italian))
        (authenticated 1 [] [(''name'', VStr ''Pasta'')]) = (Response 405 VNull, test_db)
   \<and> AttrViewSet_dispatch Tag test_db PUT (Url_detail (attr_id italian))
        (authenticated 1 [] [(''name'', VStr ''Pasta'')]) =
       (Response 200 (VDict (attr_to_representation (italian\<lparr>name := ''Pasta''\<rparr>))),
        objects_update Tag
          (map (\<lambda>x. if attr_id x = attr_id italian then italian\<lparr>name := ''Pasta''\<rparr> else x)
             (objects Tag test_db)) test_db)
   \<and> AttrViewSet_dispatch Tag test_db DELETE (Url_detail (attr_id italian))
        (authenticated 1 [] [(''name'', VStr ''Pasta'')]) =
       (Response 204 VNull,
        objects_update Tag
          (filter (\<lambda>x. attr_id x \<noteq> attr_id italian) (objects Tag test_db))
          (test_db\<lparr>Recipe_objects :=
             map (unlink Tag (attr_id italian)) (Recipe_objects test_db)\<rparr>))
   \<and> request_user (authenticated 2 [] []) \<noteq> Some (attr_user italian)
   \<and> AttrViewSet_dispatch Tag test_db DELETE (Url_detail (attr_id italian))
        (authenticated 2 [] []) = (Response 404 VNull, test_db)"
proof -
  have h1: "pk_unique test_db" by code_simp
  have h2: "italian \<in> set (objects Tag test_db)" by (simp add: italian_def test_db_def)
  have h3: "request_user (authenticated 1 [] [(''name'', VStr ''Pasta'')]) =
      Some (attr_user italian)"
    by (simp add: authenticated_def italian_def)
  have h4: "map_of (request_data (authenticated 1 [] [(''name'', VStr ''Pasta'')])) ''name'' =
       Some (VStr ''Pasta'')"
    by (simp add: authenticated_def)
  have h5: "request_user (authenticated 2 [] []) \<noteq> Some (attr_user italian)"
    "request_user (authenticated 2 [] []) \<noteq> None"
    by (simp_all add: authenticated_def italian_def)
  note c = attr_detail_is_update_and_delete [OF h1 h2 h3, of "''Pasta''"
      "authenticated 2 [] []" DELETE]
  show ?thesis using h1 h2 h3 h4 h5 c by blast
qed

text \<open>
  C9, as stated, fails: user 1 owns the tag Italian, and GET on its detail route is answered
  405 Method Not Allowed.
\<close>

theorem tag_retrieve_not_allowed:
  "italian \<in> set (Tag_objects test_db) \<and> attr_user italian = 1
   \<and> TagViewSet_dispatch test_db GET (Url_detail 1) (authenticated 1 [] []) =
       (Response 405 VNull, test_db)"
  by (simp add: italian_def test_db_def TagViewSet_dispatch_def dispatch_def handler_def
      BaseRecipeAttrViewSet_bases_def authenticated_def)

end
